theory Spec2Isabelle
  imports Main "HOL-Library.AList"
begin

section \<open>The chess library as seen from the server\<close>

text \<open>
  The server (\<^verbatim>\<open>src/app.py\<close>, \<^verbatim>\<open>src/modules/helper.py\<close>) keeps one board, one list
  of move owners, one orientation manager and one move tracker, and asks a chess rules
  library for everything that is chess. The library is not part of the repository, so
  every function of it that the two files call is a field of the record \<open>engine\<close>, and
  all definitions below take the engine as their first argument.
\<close>

text \<open>\<^verbatim>\<open>chess.Move\<close>: squares are the library's integers.\<close>

record move =
  from_square :: nat
  to_square :: nat
  promotion :: "nat option"

text \<open>
  \<^verbatim>\<open>chess.Board\<close>: what the rules are computed from (placement, side to move, castling
  rights, en-passant square, counters) is the type parameter; the move stack is the list
  the two files read with \<^verbatim>\<open>board.move_stack\<close>.
\<close>

record 'p board =
  position :: 'p
  move_stack :: "move list"

text \<open>\<^verbatim>\<open>chess.pgn.Game\<close> as \<^verbatim>\<open>current_pgn\<close> builds it: the headers and one line of nodes.\<close>

record node =
  node_move :: move
  comment :: "string option"

record game =
  headers :: "(string \<times> string) list"
  mainline :: "node list"

record 'p engine =
  chess_parse_square :: "string \<Rightarrow> nat option"
  chess_square_name :: "nat \<Rightarrow> string"
  starting_position :: 'p
  board_parse_uci :: "'p board \<Rightarrow> string \<Rightarrow> move option"
  board_legal_moves :: "'p board \<Rightarrow> move list"
  position_after :: "'p board \<Rightarrow> move \<Rightarrow> 'p"
  uci :: "move \<Rightarrow> string"
  board_fen :: "'p board \<Rightarrow> string"
  board_is_game_over :: "'p board \<Rightarrow> bool"
  board_result :: "'p board \<Rightarrow> string"
  board_turn :: "'p board \<Rightarrow> bool"
  board_is_check :: "'p board \<Rightarrow> bool"
  game_default_headers :: "(string \<times> string) list"
  game_str :: "game \<Rightarrow> string"

text \<open>
  \<open>chess_parse_square\<close> and \<open>board_parse_uci\<close> return \<open>None\<close> where the library
  raises \<^verbatim>\<open>ValueError\<close>; \<open>board_turn\<close> is \<open>True\<close> for \<^verbatim>\<open>chess.WHITE\<close>.
\<close>

text \<open>
  Modelled from the spec: \<^verbatim>\<open>chess.Board()\<close>, \<^verbatim>\<open>Board.push\<close> and \<^verbatim>\<open>Board.reset\<close> of the
  chess library, which is not under \<^verbatim>\<open>src/\<close>. The spec: a new board is the standard
  starting position; applying a move "mutates board, appends to move stack"; "reset
  restores the standard starting position".
\<close>

definition new_board :: "'p engine \<Rightarrow> 'p board" where
  "new_board eng = \<lparr>position = starting_position eng, move_stack = []\<rparr>"

definition board_push :: "'p engine \<Rightarrow> 'p board \<Rightarrow> move \<Rightarrow> 'p board" where
  "board_push eng b m = \<lparr>position = position_after eng b m, move_stack = move_stack b @ [m]\<rparr>"

definition board_reset :: "'p engine \<Rightarrow> 'p board \<Rightarrow> 'p board" where
  "board_reset eng b = new_board eng"

section \<open>helper.py\<close>

datatype exn = IndexError

subsection \<open>OrientationManager\<close>

record orientation_manager =
  orientation :: string

definition new_manager :: orientation_manager where
  "new_manager = \<lparr>orientation = ''white''\<rparr>"

definition reset_orientation :: "orientation_manager \<Rightarrow> orientation_manager" where
  "reset_orientation mg = mg\<lparr>orientation := ''white''\<rparr>"

definition get_orientation :: "orientation_manager \<Rightarrow> string" where
  "get_orientation mg = orientation mg"

definition toggle_orientation :: "orientation_manager \<Rightarrow> orientation_manager" where
  "toggle_orientation mg =
     mg\<lparr>orientation := (if orientation mg = ''white'' then ''black'' else ''white'')\<rparr>"

subsection \<open>PGN\_Tracker\<close>

text \<open>One dictionary of \<^verbatim>\<open>moves_list\<close>, with its five keys.\<close>

record move_row =
  move_no :: int
  white_move :: string
  white_user :: string
  black_move :: string
  black_user :: string

record pgn_tracker =
  moves_list :: "move_row list"

definition new_tracker :: pgn_tracker where
  "new_tracker = \<lparr>moves_list = []\<rparr>"

definition tracker_reset :: "pgn_tracker \<Rightarrow> pgn_tracker" where
  "tracker_reset tr = tr\<lparr>moves_list := []\<rparr>"

text \<open>
  \<^verbatim>\<open>xs[-1]\<close> raises \<^verbatim>\<open>IndexError\<close> on an empty list.
\<close>

definition last_item :: "'a list \<Rightarrow> exn + 'a" where
  "last_item xs = (if xs = [] then Inl IndexError else Inr (last xs))"

text \<open>
  \<^verbatim>\<open>update_moves_list\<close> mutates the tracker and may raise in the middle: the result is
  the exception, if any, and the tracker as it is when the method returns or raises.
  In the \<^verbatim>\<open>else\<close> branch each assignment evaluates its right-hand side first, then
  \<^verbatim>\<open>self.moves_list[-1]\<close>, and the first assignment is done before the second looks at
  \<^verbatim>\<open>move_owners[-1]\<close>.
\<close>

definition update_moves_list ::
  "'p engine \<Rightarrow> pgn_tracker \<Rightarrow> 'p board \<Rightarrow> string list \<Rightarrow> string \<Rightarrow> exn option \<times> pgn_tracker"
where
  "update_moves_list eng tr b move_owners ori =
     (let move_index = int (length (moves_list tr)) * 2;
          move_number = (move_index div 2) + 1
      in if ori = ''white'' then
           (case last_item (move_stack b) of
              Inl e \<Rightarrow> (Some e, tr)
            | Inr mv \<Rightarrow>
               (case last_item move_owners of
                  Inl e \<Rightarrow> (Some e, tr)
                | Inr who \<Rightarrow>
                    (None, tr\<lparr>moves_list := moves_list tr @
                       [\<lparr>move_no = move_number, white_move = uci eng mv, white_user = who,
                         black_move = ''waiting'', black_user = ''waiting''\<rparr>]\<rparr>)))
         else
           (case last_item (move_stack b) of
              Inl e \<Rightarrow> (Some e, tr)
            | Inr mv \<Rightarrow>
               (case last_item (moves_list tr) of
                  Inl e \<Rightarrow> (Some e, tr)
                | Inr row \<Rightarrow>
                    (let tr1 = tr\<lparr>moves_list :=
                                 butlast (moves_list tr) @ [row\<lparr>black_move := uci eng mv\<rparr>]\<rparr>
                     in case last_item move_owners of
                          Inl e \<Rightarrow> (Some e, tr1)
                        | Inr who \<Rightarrow>
                           (case last_item (moves_list tr1) of
                              Inl e \<Rightarrow> (Some e, tr1)
                            | Inr row1 \<Rightarrow>
                                (None, tr1\<lparr>moves_list :=
                                   butlast (moves_list tr1) @ [row1\<lparr>black_user := who\<rparr>]\<rparr>))))))"

definition get_moves_list :: "pgn_tracker \<Rightarrow> move_row list" where
  "get_moves_list tr = moves_list tr"

text \<open>A row is open while its Black fields still hold the word the tracker put there.\<close>

definition open_row :: "move_row \<Rightarrow> bool" where
  "open_row r = (black_move r = ''waiting'' \<and> black_user r = ''waiting'')"

subsection \<open>current\_pgn and status\_text\<close>

text \<open>
  The loop of \<^verbatim>\<open>current_pgn\<close> over \<^verbatim>\<open>enumerate(board.move_stack)\<close>: each move becomes the
  one variation of the node before it, and gets its comment when its index is below
  \<^verbatim>\<open>len(move_owners)\<close>. A node whose comment is never assigned has \<open>None\<close>.
\<close>

fun add_variations :: "nat \<Rightarrow> move list \<Rightarrow> string list \<Rightarrow> node list" where
  "add_variations i [] move_owners = []"
| "add_variations i (mv # mvs) move_owners =
     \<lparr>node_move = mv,
      comment = (if i < length move_owners
                 then Some (''Move made by '' @ move_owners ! i) else None)\<rparr>
     # add_variations (Suc i) mvs move_owners"

text \<open>The game object that \<^verbatim>\<open>current_pgn\<close> hands to \<^verbatim>\<open>str\<close>; \<open>today\<close> is the formatted date.\<close>

definition pgn_game :: "'p engine \<Rightarrow> string \<Rightarrow> 'p board \<Rightarrow> string list \<Rightarrow> game" where
  "pgn_game eng today b move_owners =
     \<lparr>headers =
        AList.update ''Result'' (board_result eng b)
          (AList.update ''Round'' ''1''
            (AList.update ''Date'' today
              (AList.update ''Site'' ''MGW1''
                (AList.update ''Event'' ''Office Chess'' (game_default_headers eng))))),
      mainline = add_variations 0 (move_stack b) move_owners\<rparr>"

definition current_pgn :: "'p engine \<Rightarrow> string \<Rightarrow> 'p board \<Rightarrow> string list \<Rightarrow> string" where
  "current_pgn eng today b move_owners = game_str eng (pgn_game eng today b move_owners)"

definition status_text :: "'p engine \<Rightarrow> 'p board \<Rightarrow> string" where
  "status_text eng b =
     (if board_is_game_over eng b then
        (let r = board_result eng b
         in if r = ''1-0'' then ''Checkmate! White wins!''
            else if r = ''0-1'' then ''Checkmate! Black wins!''
            else if r = ''1/2-1/2'' then ''Game over. Draw!''
            else ''Game over.'')
      else
        (let turn_str = (if board_turn eng b then ''White'' else ''Black'')
         in if board_is_check eng b
            then turn_str @ '' to move, and they're in check!''
            else turn_str @ '' to move.''))"

section \<open>app.py\<close>

text \<open>
  What a handler reads from outside the four globals: the posted form
  (\<^verbatim>\<open>request.form\<close>), the name \<^verbatim>\<open>login.get_username_cookie()\<close> returns (\<open>None\<close> when
  there is no cookie) and the date \<^verbatim>\<open>current_pgn\<close> reads from the clock.
\<close>

record request =
  form :: "(string \<times> string) list"
  username_cookie :: "string option"
  today :: string

text \<open>\<^verbatim>\<open>request.form.get(key, default)\<close>.\<close>

definition form_get :: "(string \<times> string) list \<Rightarrow> string \<Rightarrow> string \<Rightarrow> string" where
  "form_get fm k d = (case map_of fm k of None \<Rightarrow> d | Some v \<Rightarrow> v)"

text \<open>The payload of a \<^verbatim>\<open>board_update\<close> event; \<^verbatim>\<open>reset\<close> sends no \<^verbatim>\<open>moves\<close>.\<close>

record event =
  ev_fen :: string
  ev_pgn :: string
  ev_status_text :: string
  ev_orientation :: string
  ev_moves :: "move_row list option"

text \<open>What a handler returns: the JSON objects by their keys, or the redirect.\<close>

datatype reply =
    Json_moves "string list"
  | Json_status_message string string
  | Json_move_ok string string string "move_row list"
  | Json_game_status string string string string "move_row list"
  | Redirect string

text \<open>
  The module's globals \<^verbatim>\<open>board\<close>, \<^verbatim>\<open>move_owners\<close>, \<^verbatim>\<open>manager\<close> and \<^verbatim>\<open>tracker\<close>, and the
  events given to \<^verbatim>\<open>socketio.emit\<close> so far.
\<close>

record 'p server =
  board :: "'p board"
  move_owners :: "string list"
  manager :: orientation_manager
  tracker :: pgn_tracker
  emitted :: "event list"

definition init_server :: "'p engine \<Rightarrow> 'p server" where
  "init_server eng =
     \<lparr>board = new_board eng, move_owners = [], manager = new_manager,
      tracker = new_tracker, emitted = []\<rparr>"

definition legal_moves :: "'p engine \<Rightarrow> request \<Rightarrow> 'p server \<Rightarrow> (exn + reply) \<times> 'p server" where
  "legal_moves eng rq s =
     (let square_str = form_get (form rq) ''square'' ''''
      in case chess_parse_square eng square_str of
           None \<Rightarrow> (Inr (Json_moves []), s)
         | Some from_sq \<Rightarrow>
             (Inr (Json_moves
                (map (\<lambda>m. chess_square_name eng (to_square m))
                   (filter (\<lambda>m. from_square m = from_sq) (board_legal_moves eng (board s))))),
              s))"

text \<open>
  \<^verbatim>\<open>make_move\<close>. An exception of \<^verbatim>\<open>update_moves_list\<close> is not caught: it leaves the
  handler after the push and the append, before the toggle and the emit.
\<close>

definition make_move :: "'p engine \<Rightarrow> request \<Rightarrow> 'p server \<Rightarrow> (exn + reply) \<times> 'p server" where
  "make_move eng rq s =
     (let move_uci = form_get (form rq) ''move'' ''''
      in case board_parse_uci eng (board s) move_uci of
           None \<Rightarrow> (Inr (Json_status_message ''error'' ''Invalid move syntax.''), s)
         | Some mv \<Rightarrow>
             if mv \<in> set (board_legal_moves eng (board s)) then
               (let s1 = s\<lparr>board := board_push eng (board s) mv\<rparr>;
                    name_in_cookie =
                      (case username_cookie rq of
                         None \<Rightarrow> ''Anonymous''
                       | Some n \<Rightarrow> if n = [] then ''Anonymous'' else n);
                    s2 = s1\<lparr>move_owners := move_owners s1 @ [name_in_cookie]\<rparr>
                in case update_moves_list eng (tracker s2) (board s2) (move_owners s2)
                          (get_orientation (manager s2)) of
                     (Some e, tr) \<Rightarrow> (Inl e, s2\<lparr>tracker := tr\<rparr>)
                   | (None, tr) \<Rightarrow>
                       (let s3 = s2\<lparr>tracker := tr\<rparr>;
                            s4 = s3\<lparr>manager := toggle_orientation (manager s3)\<rparr>;
                            s5 = s4\<lparr>emitted := emitted s4 @
                                   [\<lparr>ev_fen = board_fen eng (board s4),
                                     ev_pgn = current_pgn eng (today rq) (board s4) (move_owners s4),
                                     ev_status_text = status_text eng (board s4),
                                     ev_orientation = get_orientation (manager s4),
                                     ev_moves = Some (get_moves_list (tracker s4))\<rparr>]\<rparr>
                        in (Inr (Json_move_ok ''ok'' (board_fen eng (board s5))
                                   (get_orientation (manager s5)) (get_moves_list (tracker s5))),
                            s5)))
             else (Inr (Json_status_message ''error'' ''Illegal move.''), s))"

definition game_status :: "'p engine \<Rightarrow> request \<Rightarrow> 'p server \<Rightarrow> (exn + reply) \<times> 'p server" where
  "game_status eng rq s =
     (Inr (Json_game_status (board_fen eng (board s))
             (current_pgn eng (today rq) (board s) (move_owners s))
             (status_text eng (board s))
             (get_orientation (manager s))
             (get_moves_list (tracker s))),
      s)"

definition reset :: "'p engine \<Rightarrow> request \<Rightarrow> 'p server \<Rightarrow> (exn + reply) \<times> 'p server" where
  "reset eng rq s =
     (let s1 = s\<lparr>board := board_reset eng (board s)\<rparr>;
          s2 = s1\<lparr>move_owners := []\<rparr>;
          s3 = s2\<lparr>tracker := tracker_reset (tracker s2)\<rparr>;
          s4 = s3\<lparr>manager := reset_orientation (manager s3)\<rparr>;
          s5 = s4\<lparr>emitted := emitted s4 @
                 [\<lparr>ev_fen = board_fen eng (board s4),
                   ev_pgn = current_pgn eng (today rq) (board s4) (move_owners s4),
                   ev_status_text = status_text eng (board s4),
                   ev_orientation = get_orientation (manager s4),
                   ev_moves = None\<rparr>]\<rparr>
      in (Inr (Redirect ''index''), s5))"

text \<open>The name \<^verbatim>\<open>make_move\<close> appends to \<^verbatim>\<open>move_owners\<close> for a request.\<close>

definition owner_name :: "request \<Rightarrow> string" where
  "owner_name rq =
     (case username_cookie rq of
        None \<Rightarrow> ''Anonymous''
      | Some n \<Rightarrow> if n = [] then ''Anonymous'' else n)"

subsection \<open>Runs of the server\<close>

text \<open>
  The routes that touch the globals, one constructor each (\<^verbatim>\<open>index\<close> only renders a page
  from \<^verbatim>\<open>board.fen()\<close> and the cookie). A run handles a list of calls one after the other,
  from the state the module starts in; a call that raises leaves the state it had reached.
\<close>

datatype call = Legal_moves request | Make_move request | Game_status request | Reset request

fun handle :: "'p engine \<Rightarrow> call \<Rightarrow> 'p server \<Rightarrow> (exn + reply) \<times> 'p server" where
  "handle eng (Legal_moves rq) s = legal_moves eng rq s"
| "handle eng (Make_move rq) s = make_move eng rq s"
| "handle eng (Game_status rq) s = game_status eng rq s"
| "handle eng (Reset rq) s = reset eng rq s"

fun run :: "'p engine \<Rightarrow> call list \<Rightarrow> 'p server \<Rightarrow> 'p server" where
  "run eng [] s = s"
| "run eng (c # cs) s = run eng cs (snd (handle eng c s))"

text \<open>A move attempt succeeds when it answers with status \<^verbatim>\<open>ok\<close>.\<close>

fun move_ok :: "(exn + reply) \<Rightarrow> bool" where
  "move_ok (Inr (Json_move_ok st f ori rows)) = (st = ''ok'')"
| "move_ok _ = False"

text \<open>
  The number of successful move attempts of a run since its last reset (since its start
  when it has none); \<open>n\<close> is the number so far.
\<close>

fun moves_since_reset :: "'p engine \<Rightarrow> call list \<Rightarrow> 'p server \<Rightarrow> nat \<Rightarrow> nat" where
  "moves_since_reset eng [] s n = n"
| "moves_since_reset eng (Reset rq # cs) s n =
     moves_since_reset eng cs (snd (reset eng rq s)) 0"
| "moves_since_reset eng (Make_move rq # cs) s n =
     (case make_move eng rq s of
        (r, s') \<Rightarrow> moves_since_reset eng cs s' (if move_ok r then Suc n else n))"
| "moves_since_reset eng (c # cs) s n = moves_since_reset eng cs (snd (handle eng c s)) n"

section \<open>A small engine to run the server on\<close>

text \<open>
  To evaluate the handlers on concrete requests the engine has to be a concrete one. The
  sample below stands in for the chess library in the examples. It knows the squares and
  the move notation, keeps the sixty-four squares and the side to move, and generates,
  from the standard starting position, the pawn pushes and the knight jumps to empty
  squares; that is every legal move of the first move of each side, and it lets a game go
  on for as long as the examples need. It knows no other move, no capture and no check.
  As in the library, \<^verbatim>\<open>parse_uci\<close> accepts the null move \<^verbatim>\<open>0000\<close> and refuses every other
  move that is not legal on the board, and the null move is never legal.
\<close>

fun index_of :: "'a \<Rightarrow> 'a list \<Rightarrow> nat option" where
  "index_of x [] = None"
| "index_of x (y # ys) =
     (if x = y then Some 0 else (case index_of x ys of None \<Rightarrow> None | Some i \<Rightarrow> Some (Suc i)))"

definition sample_square_name :: "nat \<Rightarrow> string" where
  "sample_square_name sq = [''abcdefgh'' ! (sq mod 8), ''12345678'' ! (sq div 8)]"

fun sample_parse_square :: "string \<Rightarrow> nat option" where
  "sample_parse_square [f, r] =
     (case index_of f ''abcdefgh'' of
        None \<Rightarrow> None
      | Some i \<Rightarrow> (case index_of r ''12345678'' of None \<Rightarrow> None | Some j \<Rightarrow> Some (8 * j + i)))"
| "sample_parse_square _ = None"

definition null_move :: move where
  "null_move = \<lparr>from_square = 0, to_square = 0, promotion = None\<rparr>"

definition sample_uci :: "move \<Rightarrow> string" where
  "sample_uci m =
     (case promotion m of
        Some p \<Rightarrow> sample_square_name (from_square m) @ sample_square_name (to_square m)
                  @ [''?pnbrqk'' ! p]
      | None \<Rightarrow>
          if from_square m = 0 \<and> to_square m = 0 then ''0000''
          else sample_square_name (from_square m) @ sample_square_name (to_square m))"

definition sample_from_uci :: "string \<Rightarrow> move option" where
  "sample_from_uci u =
     (if u = ''0000'' then Some null_move
      else if length u = 4 \<or> length u = 5 then
        (case sample_parse_square (take 2 u) of
           None \<Rightarrow> None
         | Some f \<Rightarrow>
            (case sample_parse_square (take 2 (drop 2 u)) of
               None \<Rightarrow> None
             | Some t \<Rightarrow>
                 if length u = 5 then
                   (case index_of (u ! 4) ''?pnbrqk'' of
                      None \<Rightarrow> None
                    | Some p \<Rightarrow>
                        if p = 0 \<or> f = t then None
                        else Some \<lparr>from_square = f, to_square = t, promotion = Some p\<rparr>)
                 else if f = t then None
                 else Some \<lparr>from_square = f, to_square = t, promotion = None\<rparr>))
      else None)"

definition plain_move :: "nat \<Rightarrow> nat \<Rightarrow> move" where
  "plain_move f t = \<lparr>from_square = f, to_square = t, promotion = None\<rparr>"

text \<open>
  A position of the sample: the pieces on the squares \<^verbatim>\<open>a1, b1, ..., h8\<close> (upper case for
  White, a dot for an empty square) and whether White is to move.
\<close>

type_synonym sample_position = "string \<times> bool"

definition start_squares :: string where
  "start_squares =
     ''RNBQKBNRPPPPPPPP'' @ replicate 32 (CHR ''.'') @ ''pppppppprnbqkbnr''"

text \<open>
  The squares a knight on square \<open>f\<close> jumps to, from the highest to the lowest, and the
  occupied squares of a position with their pieces, from \<^verbatim>\<open>h8\<close> down to \<^verbatim>\<open>a1\<close>.
\<close>

definition knight_targets :: "nat \<Rightarrow> nat list" where
  "knight_targets f =
     map (\<lambda>(df, dr). nat ((int (f div 8) + dr) * 8 + (int (f mod 8) + df)))
       (filter (\<lambda>(df, dr). 0 \<le> int (f mod 8) + df \<and> int (f mod 8) + df < 8
                            \<and> 0 \<le> int (f div 8) + dr \<and> int (f div 8) + dr < 8)
          [(1, 2), (-1, 2), (2, 1), (-2, 1), (2, -1), (-2, -1), (1, -2), (-1, -2)])"

definition pieces_of :: "string \<Rightarrow> char \<Rightarrow> nat list" where
  "pieces_of sqs p = map fst (filter (\<lambda>(f, c). c = p) (rev (zip [0..<64] sqs)))"

definition knight_moves :: "string \<Rightarrow> bool \<Rightarrow> move list" where
  "knight_moves sqs white =
     concat (map (\<lambda>f. map (plain_move f) (filter (\<lambda>t. sqs ! t = CHR ''.'') (knight_targets f)))
               (pieces_of sqs (if white then CHR ''N'' else CHR ''n'')))"

definition pawn_single :: "string \<Rightarrow> bool \<Rightarrow> move list" where
  "pawn_single sqs white =
     (if white then
        map (\<lambda>f. plain_move f (f + 8))
          (filter (\<lambda>f. f + 8 < 64 \<and> sqs ! (f + 8) = CHR ''.'') (pieces_of sqs (CHR ''P'')))
      else
        map (\<lambda>f. plain_move f (f - 8))
          (filter (\<lambda>f. 8 \<le> f \<and> sqs ! (f - 8) = CHR ''.'') (pieces_of sqs (CHR ''p''))))"

definition pawn_double :: "string \<Rightarrow> bool \<Rightarrow> move list" where
  "pawn_double sqs white =
     (if white then
        map (\<lambda>f. plain_move f (f + 16))
          (filter (\<lambda>f. f div 8 = 1 \<and> sqs ! (f + 8) = CHR ''.'' \<and> sqs ! (f + 16) = CHR ''.'')
             (pieces_of sqs (CHR ''P'')))
      else
        map (\<lambda>f. plain_move f (f - 16))
          (filter (\<lambda>f. f div 8 = 6 \<and> sqs ! (f - 8) = CHR ''.'' \<and> sqs ! (f - 16) = CHR ''.'')
             (pieces_of sqs (CHR ''p''))))"

definition sample_legal_moves :: "sample_position board \<Rightarrow> move list" where
  "sample_legal_moves b =
     (case position b of
        (sqs, white) \<Rightarrow> knight_moves sqs white @ pawn_single sqs white @ pawn_double sqs white)"

definition sample_position_after :: "sample_position board \<Rightarrow> move \<Rightarrow> sample_position" where
  "sample_position_after b m =
     (case position b of
        (sqs, white) \<Rightarrow>
          ((sqs[to_square m := sqs ! from_square m])[from_square m := CHR ''.''], \<not> white))"

definition sample_piece_at :: "sample_position board \<Rightarrow> nat \<Rightarrow> bool" where
  "sample_piece_at b sq = (fst (position b) ! sq \<noteq> CHR ''.'')"

definition sample_parse_uci :: "sample_position board \<Rightarrow> string \<Rightarrow> move option" where
  "sample_parse_uci b u =
     (case sample_from_uci u of
        None \<Rightarrow> None
      | Some m \<Rightarrow>
          if m = null_move then Some m
          else if m \<in> set (sample_legal_moves b) then Some m
          else None)"

fun join_words :: "string list \<Rightarrow> string" where
  "join_words [] = []"
| "join_words (w # ws) = '' '' @ w @ join_words ws"

text \<open>
  The sample writes a position the way a chess program is told one: the starting position
  and the moves played from it.
\<close>

definition sample_fen :: "sample_position board \<Rightarrow> string" where
  "sample_fen b = ''startpos moves'' @ join_words (map sample_uci (move_stack b))"

definition sample_game_str :: "game \<Rightarrow> string" where
  "sample_game_str g =
     join_words (map (\<lambda>n. sample_uci (node_move n) @
                         (case comment n of None \<Rightarrow> [] | Some c \<Rightarrow> '' { '' @ c @ '' }''))
                     (mainline g))
     @ '' '' @ (case map_of (headers g) ''Result'' of None \<Rightarrow> ''*'' | Some r \<Rightarrow> r)"

definition sample_engine :: "sample_position engine" where
  "sample_engine =
     \<lparr>chess_parse_square = sample_parse_square,
      chess_square_name = sample_square_name,
      starting_position = (start_squares, True),
      board_parse_uci = sample_parse_uci,
      board_legal_moves = sample_legal_moves,
      position_after = sample_position_after,
      uci = sample_uci,
      board_fen = sample_fen,
      board_is_game_over = (\<lambda>b. sample_legal_moves b = []),
      board_result = (\<lambda>b. if sample_legal_moves b = [] then ''1/2-1/2'' else ''*''),
      board_turn = (\<lambda>b. snd (position b)),
      board_is_check = (\<lambda>b. False),
      game_default_headers =
        [(''Event'', ''?''), (''Site'', ''?''), (''Date'', ''????.??.??''), (''Round'', ''?''),
         (''White'', ''?''), (''Black'', ''?''), (''Result'', ''*'')],
      game_str = sample_game_str\<rparr>"

text \<open>Requests for the examples.\<close>

definition move_request :: "string \<Rightarrow> string option \<Rightarrow> request" where
  "move_request u who = \<lparr>form = [(''move'', u)], username_cookie = who, today = ''2025.01.01''\<rparr>"

definition square_request :: "string \<Rightarrow> request" where
  "square_request sq = \<lparr>form = [(''square'', sq)], username_cookie = None, today = ''2025.01.01''\<rparr>"

definition plain_request :: request where
  "plain_request = \<lparr>form = [], username_cookie = None, today = ''2025.01.01''\<rparr>"

text \<open>
  Two runs for the examples. In the first, three moves are made, the second of them by a
  user who calls himself \<^verbatim>\<open>waiting\<close>. In the second, two moves are followed by a reset,
  a move by a user with an empty name, two attempts that are turned down and two queries.
\<close>

definition three_moves :: "call list" where
  "three_moves =
     [Make_move (move_request ''e2e4'' (Some ''Alice'')),
      Make_move (move_request ''e7e5'' (Some ''waiting'')),
      Make_move (move_request ''g1f3'' (Some ''Carol''))]"

definition game_with_reset :: "call list" where
  "game_with_reset =
     [Make_move (move_request ''e2e4'' (Some ''Alice'')),
      Make_move (move_request ''e7e5'' (Some ''Bob'')),
      Reset plain_request,
      Make_move (move_request ''d2d4'' (Some '''')),
      Make_move (move_request ''0000'' (Some ''Alice'')),
      Make_move (move_request ''d4d6'' (Some ''Alice'')),
      Legal_moves (square_request ''d7''),
      Game_status plain_request]"

text \<open>What the examples look at in a state: the moves made, their owners, the orientation and the rows.\<close>

definition shown ::
  "'p engine \<Rightarrow> 'p server \<Rightarrow> string list \<times> string list \<times> string \<times> move_row list" where
  "shown eng s =
     (map (uci eng) (move_stack (board s)), move_owners s, get_orientation (manager s),
      get_moves_list (tracker s))"

section \<open>What the tracker and a move attempt do, case by case\<close>

lemma update_white:
  assumes "move_stack b \<noteq> []" and "owners \<noteq> []"
  shows "update_moves_list eng tr b owners ''white'' =
    (None, tr\<lparr>moves_list := moves_list tr @
       [\<lparr>move_no = int (length (moves_list tr)) + 1, white_move = uci eng (last (move_stack b)),
         white_user = last owners, black_move = ''waiting'', black_user = ''waiting''\<rparr>]\<rparr>)"
  using assms by (simp add: update_moves_list_def last_item_def)

lemma update_black:
  assumes "ori \<noteq> ''white''" and "move_stack b \<noteq> []" and "owners \<noteq> []"
    and "moves_list tr \<noteq> []"
  shows "update_moves_list eng tr b owners ori =
    (None, tr\<lparr>moves_list := butlast (moves_list tr) @
       [(last (moves_list tr))\<lparr>black_move := uci eng (last (move_stack b)),
                                 black_user := last owners\<rparr>]\<rparr>)"
  using assms by (simp add: update_moves_list_def last_item_def Let_def)

lemma update_black_empty:
  assumes "ori \<noteq> ''white''" and "moves_list tr = []"
  shows "update_moves_list eng tr b owners ori = (Some IndexError, tr)"
  using assms by (simp add: update_moves_list_def last_item_def Let_def split: sum.splits)

lemma make_move_syntax:
  assumes "board_parse_uci eng (board s) (form_get (form rq) ''move'' '''') = None"
  shows "make_move eng rq s = (Inr (Json_status_message ''error'' ''Invalid move syntax.''), s)"
  using assms by (simp add: make_move_def)

lemma make_move_not_legal:
  assumes "board_parse_uci eng (board s) (form_get (form rq) ''move'' '''') = Some mv"
    and "mv \<notin> set (board_legal_moves eng (board s))"
  shows "make_move eng rq s = (Inr (Json_status_message ''error'' ''Illegal move.''), s)"
  using assms by (simp add: make_move_def)

lemma make_move_white:
  assumes "board_parse_uci eng (board s) (form_get (form rq) ''move'' '''') = Some mv"
    and "mv \<in> set (board_legal_moves eng (board s))"
    and "orientation (manager s) = ''white''"
  shows "fst (make_move eng rq s) =
           Inr (Json_move_ok ''ok'' (board_fen eng (board_push eng (board s) mv)) ''black''
             (moves_list (tracker s) @
               [\<lparr>move_no = int (length (moves_list (tracker s))) + 1, white_move = uci eng mv,
                 white_user = owner_name rq, black_move = ''waiting'',
                 black_user = ''waiting''\<rparr>]))"
    and "board (snd (make_move eng rq s)) = board_push eng (board s) mv"
    and "move_owners (snd (make_move eng rq s)) = move_owners s @ [owner_name rq]"
    and "moves_list (tracker (snd (make_move eng rq s))) = moves_list (tracker s) @
               [\<lparr>move_no = int (length (moves_list (tracker s))) + 1, white_move = uci eng mv,
                 white_user = owner_name rq, black_move = ''waiting'',
                 black_user = ''waiting''\<rparr>]"
    and "orientation (manager (snd (make_move eng rq s))) = ''black''"
  using assms
  by (simp_all add: make_move_def Let_def update_white board_push_def get_orientation_def
      toggle_orientation_def get_moves_list_def owner_name_def)

lemma make_move_black:
  assumes "board_parse_uci eng (board s) (form_get (form rq) ''move'' '''') = Some mv"
    and "mv \<in> set (board_legal_moves eng (board s))"
    and "orientation (manager s) \<noteq> ''white''"
    and "moves_list (tracker s) \<noteq> []"
  shows "fst (make_move eng rq s) =
           Inr (Json_move_ok ''ok'' (board_fen eng (board_push eng (board s) mv)) ''white''
             (butlast (moves_list (tracker s)) @
               [(last (moves_list (tracker s)))\<lparr>black_move := uci eng mv,
                                                 black_user := owner_name rq\<rparr>]))"
    and "board (snd (make_move eng rq s)) = board_push eng (board s) mv"
    and "move_owners (snd (make_move eng rq s)) = move_owners s @ [owner_name rq]"
    and "moves_list (tracker (snd (make_move eng rq s))) = butlast (moves_list (tracker s)) @
               [(last (moves_list (tracker s)))\<lparr>black_move := uci eng mv,
                                                 black_user := owner_name rq\<rparr>]"
    and "orientation (manager (snd (make_move eng rq s))) = ''white''"
  using assms
  by (simp_all add: make_move_def Let_def update_black board_push_def get_orientation_def
      toggle_orientation_def get_moves_list_def owner_name_def)

lemma make_move_black_empty:
  assumes "board_parse_uci eng (board s) (form_get (form rq) ''move'' '''') = Some mv"
    and "mv \<in> set (board_legal_moves eng (board s))"
    and "orientation (manager s) \<noteq> ''white''"
    and "moves_list (tracker s) = []"
  shows "make_move eng rq s =
     (Inl IndexError,
      s\<lparr>board := board_push eng (board s) mv,
        move_owners := move_owners s @ [owner_name rq]\<rparr>)"
  using assms
  by (simp add: make_move_def Let_def update_black_empty board_push_def get_orientation_def
      owner_name_def)

section \<open>What the handlers keep from one call to the next\<close>

lemma legal_moves_state: "snd (legal_moves eng rq s) = s"
  by (simp add: legal_moves_def Let_def split: option.splits)

lemma game_status_state: "snd (game_status eng rq s) = s"
  by (simp add: game_status_def)

lemma reset_state:
  "board (snd (reset eng rq s)) = new_board eng"
  "move_owners (snd (reset eng rq s)) = []"
  "moves_list (tracker (snd (reset eng rq s))) = []"
  "orientation (manager (snd (reset eng rq s))) = ''white''"
  by (simp_all add: reset_def Let_def board_reset_def tracker_reset_def reset_orientation_def)

lemma move_ok_make_move:
  "move_ok (fst (make_move eng rq s)) \<longleftrightarrow>
     (\<exists>mv. board_parse_uci eng (board s) (form_get (form rq) ''move'' '''') = Some mv
        \<and> mv \<in> set (board_legal_moves eng (board s))
        \<and> (orientation (manager s) = ''white'' \<or> moves_list (tracker s) \<noteq> []))"
proof (cases "board_parse_uci eng (board s) (form_get (form rq) ''move'' '''')")
  case None
  then show ?thesis by (simp add: make_move_syntax)
next
  case (Some mv)
  show ?thesis
  proof (cases "mv \<in> set (board_legal_moves eng (board s))")
    case False
    with Some show ?thesis by (simp add: make_move_not_legal)
  next
    case True
    show ?thesis
    proof (cases "orientation (manager s) = ''white''")
      case white: True
      from make_move_white(1) [OF Some True white] Some True white show ?thesis by simp
    next
      case black: False
      show ?thesis
      proof (cases "moves_list (tracker s) = []")
        case True
        from make_move_black_empty [OF Some \<open>mv \<in> _\<close> black True] Some black True
        show ?thesis by simp
      next
        case False
        from make_move_black(1) [OF Some True black False] Some True black False
        show ?thesis by simp
      qed
    qed
  qed
qed

lemma illegal_reply_only_when_parsed:
  "fst (make_move eng rq s) = Inr (Json_status_message ''error'' ''Illegal move.'') \<longleftrightarrow>
     (\<exists>mv. board_parse_uci eng (board s) (form_get (form rq) ''move'' '''') = Some mv
        \<and> mv \<notin> set (board_legal_moves eng (board s)))"
proof (cases "board_parse_uci eng (board s) (form_get (form rq) ''move'' '''')")
  case None
  then show ?thesis by (simp add: make_move_syntax)
next
  case (Some mv)
  show ?thesis
  proof (cases "mv \<in> set (board_legal_moves eng (board s))")
    case False
    with Some show ?thesis by (simp add: make_move_not_legal)
  next
    case True
    with Some move_ok_make_move [of eng rq s] show ?thesis
      by (auto simp add: make_move_def Let_def split: prod.splits option.splits)
  qed
qed

subsection \<open>Move owners and move stack\<close>

lemma make_move_owners_stack:
  "length (move_owners (snd (make_move eng rq s))) + length (move_stack (board s)) =
   length (move_stack (board (snd (make_move eng rq s)))) + length (move_owners s)"
  by (auto simp add: make_move_def Let_def board_push_def split: option.splits prod.splits)

lemma make_move_owners_grow:
  "move_ok (fst (make_move eng rq s)) \<Longrightarrow>
   length (move_owners (snd (make_move eng rq s))) = Suc (length (move_owners s))"
  by (auto simp add: make_move_def Let_def split: option.splits prod.splits if_splits)

lemma handle_owners_stack:
  assumes "length (move_owners s) = length (move_stack (board s))"
  shows "length (move_owners (snd (handle eng c s))) =
         length (move_stack (board (snd (handle eng c s))))"
proof (cases c)
  case (Make_move rq)
  with assms make_move_owners_stack [of eng rq s] show ?thesis by simp
next
  case (Reset rq)
  then show ?thesis by (simp add: reset_state new_board_def)
qed (use assms in \<open>simp_all add: legal_moves_state game_status_state\<close>)

lemma run_owners_stack:
  "length (move_owners s) = length (move_stack (board s)) \<Longrightarrow>
   length (move_owners (run eng cs s)) = length (move_stack (board (run eng cs s)))"
  by (induction cs arbitrary: s) (simp_all add: handle_owners_stack)

lemma init_owners_stack:
  "length (move_owners (init_server eng)) = length (move_stack (board (init_server eng)))"
  by (simp add: init_server_def new_board_def)

subsection \<open>The orientation\<close>

lemma make_move_orientation:
  "orientation (manager (snd (make_move eng rq s))) =
     (if move_ok (fst (make_move eng rq s))
      then (if orientation (manager s) = ''white'' then ''black'' else ''white'')
      else orientation (manager s))"
  by (auto simp add: make_move_def Let_def toggle_orientation_def
      split: option.splits prod.splits)

lemma run_orientation:
  "orientation (manager s) = (if even n then ''white'' else ''black'') \<Longrightarrow>
   orientation (manager (run eng cs s)) =
     (if even (moves_since_reset eng cs s n) then ''white'' else ''black'')"
proof (induction cs arbitrary: s n)
  case Nil
  then show ?case by simp
next
  case (Cons c cs)
  show ?case
  proof (cases c)
    case (Legal_moves rq)
    with Cons show ?thesis by (simp add: legal_moves_state)
  next
    case (Game_status rq)
    with Cons show ?thesis by (simp add: game_status_state)
  next
    case (Reset rq)
    have "orientation (manager (snd (reset eng rq s))) = (if even (0::nat) then ''white'' else ''black'')"
      by (simp add: reset_state)
    from Cons.IH [OF this] Reset show ?thesis by simp
  next
    case (Make_move rq)
    let ?n = "if move_ok (fst (make_move eng rq s)) then Suc n else n"
    have "orientation (manager (snd (make_move eng rq s))) =
            (if even ?n then ''white'' else ''black'')"
      using Cons.prems by (simp add: make_move_orientation)
    from Cons.IH [OF this] Make_move show ?thesis by (simp add: case_prod_unfold)
  qed
qed

subsection \<open>The row that waits for Black\<close>

lemma make_move_pending:
  assumes "orientation (manager s) \<noteq> ''white'' \<longrightarrow>
             moves_list (tracker s) \<noteq> [] \<and> open_row (last (moves_list (tracker s)))"
  shows "orientation (manager (snd (make_move eng rq s))) \<noteq> ''white'' \<longrightarrow>
           moves_list (tracker (snd (make_move eng rq s))) \<noteq> []
           \<and> open_row (last (moves_list (tracker (snd (make_move eng rq s)))))"
proof (cases "board_parse_uci eng (board s) (form_get (form rq) ''move'' '''')")
  case None
  with assms show ?thesis by (simp add: make_move_syntax)
next
  case (Some mv)
  show ?thesis
  proof (cases "mv \<in> set (board_legal_moves eng (board s))")
    case False
    with Some assms show ?thesis by (simp add: make_move_not_legal)
  next
    case True
    show ?thesis
    proof (cases "orientation (manager s) = ''white''")
      case white: True
      from make_move_white(4) [OF Some True white] show ?thesis
        by (simp add: open_row_def)
    next
      case black: False
      with assms have "moves_list (tracker s) \<noteq> []" by simp
      from make_move_black(5) [OF Some True black this] show ?thesis by simp
    qed
  qed
qed

lemma handle_pending:
  assumes "orientation (manager s) \<noteq> ''white'' \<longrightarrow>
             moves_list (tracker s) \<noteq> [] \<and> open_row (last (moves_list (tracker s)))"
  shows "orientation (manager (snd (handle eng c s))) \<noteq> ''white'' \<longrightarrow>
           moves_list (tracker (snd (handle eng c s))) \<noteq> []
           \<and> open_row (last (moves_list (tracker (snd (handle eng c s)))))"
proof (cases c)
  case (Make_move rq)
  with make_move_pending [OF assms, of eng rq] show ?thesis by simp
next
  case (Reset rq)
  then show ?thesis by (simp add: reset_state)
qed (use assms in \<open>simp_all add: legal_moves_state game_status_state\<close>)

lemma run_pending:
  assumes "orientation (manager s) \<noteq> ''white'' \<longrightarrow>
             moves_list (tracker s) \<noteq> [] \<and> open_row (last (moves_list (tracker s)))"
  shows "orientation (manager (run eng cs s)) \<noteq> ''white'' \<longrightarrow>
           moves_list (tracker (run eng cs s)) \<noteq> []
           \<and> open_row (last (moves_list (tracker (run eng cs s))))"
  using assms
proof (induction cs arbitrary: s)
  case Nil
  then show ?case by simp
next
  case (Cons c cs)
  from Cons.IH [OF handle_pending [OF Cons.prems, of eng c]] show ?case by simp
qed

lemma make_move_no_exception:
  assumes "orientation (manager s) \<noteq> ''white'' \<longrightarrow> moves_list (tracker s) \<noteq> []"
  shows "fst (make_move eng rq s) \<noteq> Inl e"
proof (cases "board_parse_uci eng (board s) (form_get (form rq) ''move'' '''')")
  case None
  then show ?thesis by (simp add: make_move_syntax)
next
  case (Some mv)
  show ?thesis
  proof (cases "mv \<in> set (board_legal_moves eng (board s))")
    case False
    with Some show ?thesis by (simp add: make_move_not_legal)
  next
    case True
    show ?thesis
    proof (cases "orientation (manager s) = ''white''")
      case white: True
      from make_move_white(1) [OF Some True white] show ?thesis by simp
    next
      case black: False
      with assms have "moves_list (tracker s) \<noteq> []" by simp
      from make_move_black(1) [OF Some True black this] show ?thesis by simp
    qed
  qed
qed

subsection \<open>The rows before the last one\<close>

lemma closed_rows_butlast:
  "list_all (\<lambda>r. \<not> open_row r) (butlast rows) \<longleftrightarrow>
     (\<forall>i < length rows. open_row (rows ! i) \<longrightarrow> Suc i = length rows)"
proof (cases "rows = []")
  case True
  then show ?thesis by simp
next
  case False
  have "list_all (\<lambda>r. \<not> open_row r) (butlast rows) \<longleftrightarrow>
          (\<forall>i < length rows - 1. \<not> open_row (rows ! i))"
    by (simp add: list_all_length nth_butlast)
  also have "\<dots> \<longleftrightarrow> (\<forall>i < length rows. open_row (rows ! i) \<longrightarrow> Suc i = length rows)"
  proof
    assume h: "\<forall>i < length rows - 1. \<not> open_row (rows ! i)"
    show "\<forall>i < length rows. open_row (rows ! i) \<longrightarrow> Suc i = length rows"
    proof (intro allI impI)
      fix i assume "i < length rows" and "open_row (rows ! i)"
      with h have "\<not> i < length rows - 1" by blast
      with \<open>i < length rows\<close> show "Suc i = length rows" by simp
    qed
  next
    assume h: "\<forall>i < length rows. open_row (rows ! i) \<longrightarrow> Suc i = length rows"
    show "\<forall>i < length rows - 1. \<not> open_row (rows ! i)"
    proof (intro allI impI)
      fix i assume "i < length rows - 1"
      then have "i < length rows" and "Suc i \<noteq> length rows" by simp_all
      with h show "\<not> open_row (rows ! i)" by blast
    qed
  qed
  finally show ?thesis .
qed

lemma closed_rows_filter:
  assumes "list_all (\<lambda>r. \<not> open_row r) (butlast rows)"
  shows "length (filter open_row rows) \<le> 1"
proof (cases "rows = []")
  case True
  then show ?thesis by simp
next
  case False
  then have "rows = butlast rows @ [last rows]" by simp
  then have "filter open_row rows = filter open_row (butlast rows) @ filter open_row [last rows]"
    by (metis filter_append)
  moreover from assms have "filter open_row (butlast rows) = []"
    by (simp add: filter_empty_conv list_all_iff)
  ultimately show ?thesis by simp
qed

lemma make_move_rows:
  assumes waiting: "\<And>m. uci eng m \<noteq> ''waiting''"
    and white: "orientation (manager s) = ''white'' \<longrightarrow>
             list_all (\<lambda>r. \<not> open_row r) (moves_list (tracker s))"
    and black: "orientation (manager s) \<noteq> ''white'' \<longrightarrow>
             moves_list (tracker s) \<noteq> []
             \<and> list_all (\<lambda>r. \<not> open_row r) (butlast (moves_list (tracker s)))"
  shows "(orientation (manager (snd (make_move eng rq s))) = ''white'' \<longrightarrow>
             list_all (\<lambda>r. \<not> open_row r) (moves_list (tracker (snd (make_move eng rq s)))))
         \<and> (orientation (manager (snd (make_move eng rq s))) \<noteq> ''white'' \<longrightarrow>
             moves_list (tracker (snd (make_move eng rq s))) \<noteq> []
             \<and> list_all (\<lambda>r. \<not> open_row r)
                 (butlast (moves_list (tracker (snd (make_move eng rq s))))))"
proof (cases "board_parse_uci eng (board s) (form_get (form rq) ''move'' '''')")
  case None
  with white black show ?thesis by (simp add: make_move_syntax)
next
  case (Some mv)
  show ?thesis
  proof (cases "mv \<in> set (board_legal_moves eng (board s))")
    case False
    with Some white black show ?thesis by (simp add: make_move_not_legal)
  next
    case True
    show ?thesis
    proof (cases "orientation (manager s) = ''white''")
      case w: True
      from make_move_white(4,5) [OF Some True w] white w show ?thesis by simp
    next
      case b: False
      with black have ne: "moves_list (tracker s) \<noteq> []"
        and closed: "list_all (\<lambda>r. \<not> open_row r) (butlast (moves_list (tracker s)))"
        by simp_all
      from make_move_black(4,5) [OF Some True b ne] closed waiting show ?thesis
        by (simp add: open_row_def)
    qed
  qed
qed

lemma handle_rows:
  assumes waiting: "\<And>m. uci eng m \<noteq> ''waiting''"
    and white: "orientation (manager s) = ''white'' \<longrightarrow>
             list_all (\<lambda>r. \<not> open_row r) (moves_list (tracker s))"
    and black: "orientation (manager s) \<noteq> ''white'' \<longrightarrow>
             moves_list (tracker s) \<noteq> []
             \<and> list_all (\<lambda>r. \<not> open_row r) (butlast (moves_list (tracker s)))"
  shows "(orientation (manager (snd (handle eng c s))) = ''white'' \<longrightarrow>
             list_all (\<lambda>r. \<not> open_row r) (moves_list (tracker (snd (handle eng c s)))))
         \<and> (orientation (manager (snd (handle eng c s))) \<noteq> ''white'' \<longrightarrow>
             moves_list (tracker (snd (handle eng c s))) \<noteq> []
             \<and> list_all (\<lambda>r. \<not> open_row r)
                 (butlast (moves_list (tracker (snd (handle eng c s))))))"
proof (cases c)
  case (Make_move rq)
  with make_move_rows [OF waiting white black, of rq] show ?thesis by simp
next
  case (Reset rq)
  then show ?thesis by (simp add: reset_state)
qed (use white black in \<open>simp_all add: legal_moves_state game_status_state\<close>)

lemma run_rows:
  assumes waiting: "\<And>m. uci eng m \<noteq> ''waiting''"
    and white: "orientation (manager s) = ''white'' \<longrightarrow>
             list_all (\<lambda>r. \<not> open_row r) (moves_list (tracker s))"
    and black: "orientation (manager s) \<noteq> ''white'' \<longrightarrow>
             moves_list (tracker s) \<noteq> []
             \<and> list_all (\<lambda>r. \<not> open_row r) (butlast (moves_list (tracker s)))"
  shows "list_all (\<lambda>r. \<not> open_row r) (butlast (moves_list (tracker (run eng cs s))))"
  using white black
proof (induction cs arbitrary: s)
  case Nil
  show ?case
  proof (cases "orientation (manager s) = ''white''")
    case True
    with Nil have "list_all (\<lambda>r. \<not> open_row r) (moves_list (tracker s))" by simp
    then show ?thesis by (auto simp add: list_all_iff dest: in_set_butlastD)
  next
    case False
    with Nil show ?thesis by simp
  qed
next
  case (Cons c cs)
  from handle_rows [OF waiting Cons.prems, of c]
  have "orientation (manager (snd (handle eng c s))) = ''white'' \<longrightarrow>
          list_all (\<lambda>r. \<not> open_row r) (moves_list (tracker (snd (handle eng c s))))"
    and "orientation (manager (snd (handle eng c s))) \<noteq> ''white'' \<longrightarrow>
          moves_list (tracker (snd (handle eng c s))) \<noteq> []
          \<and> list_all (\<lambda>r. \<not> open_row r) (butlast (moves_list (tracker (snd (handle eng c s)))))"
    by blast+
  from Cons.IH [OF this] show ?case by simp
qed

subsection \<open>The game object of current\_pgn\<close>

lemma add_variations_moves: "map node_move (add_variations i mvs owners) = mvs"
  by (induction mvs arbitrary: i) simp_all

lemma add_variations_comment:
  "j < length mvs \<Longrightarrow>
   comment (add_variations i mvs owners ! j) =
     (if i + j < length owners then Some (''Move made by '' @ owners ! (i + j)) else None)"
proof (induction mvs arbitrary: i j)
  case Nil
  then show ?case by simp
next
  case (Cons mv mvs)
  show ?case
  proof (cases j)
    case 0
    then show ?thesis by simp
  next
    case (Suc k)
    with Cons.prems have "k < length mvs" by simp
    from Cons.IH [OF this, of "Suc i"] Suc show ?thesis by simp
  qed
qed

lemma pgn_game_mainline:
  "map node_move (mainline (pgn_game eng day b owners)) = move_stack b"
  "j < length (move_stack b) \<Longrightarrow>
   comment (mainline (pgn_game eng day b owners) ! j) =
     (if j < length owners then Some (''Move made by '' @ owners ! j) else None)"
  using add_variations_comment [of j "move_stack b" 0 owners]
  by (simp_all add: pgn_game_def add_variations_moves)

section \<open>The two runs on the sample engine\<close>

lemma three_moves_shown:
  "shown sample_engine (run sample_engine three_moves (init_server sample_engine)) =
     ([''e2e4'', ''e7e5'', ''g1f3''], [''Alice'', ''waiting'', ''Carol''], ''black'',
      [\<lparr>move_no = 1, white_move = ''e2e4'', white_user = ''Alice'',
         black_move = ''e7e5'', black_user = ''waiting''\<rparr>,
       \<lparr>move_no = 2, white_move = ''g1f3'', white_user = ''Carol'',
         black_move = ''waiting'', black_user = ''waiting''\<rparr>])"
  by code_simp

lemma game_with_reset_shown:
  "shown sample_engine (run sample_engine game_with_reset (init_server sample_engine)) =
     ([''d2d4''], [''Anonymous''], ''black'',
      [\<lparr>move_no = 1, white_move = ''d2d4'', white_user = ''Anonymous'',
         black_move = ''waiting'', black_user = ''waiting''\<rparr>])"
  by code_simp

lemma game_with_reset_count:
  "moves_since_reset sample_engine game_with_reset (init_server sample_engine) 0 = 1"
  by code_simp

lemma sample_square_name_length: "length (sample_square_name sq) = 2"
  by (simp add: sample_square_name_def)

lemma sample_uci_length: "length (sample_uci m) \<le> 5"
  by (simp add: sample_uci_def sample_square_name_length split: option.splits)

lemma sample_uci_not_waiting: "uci sample_engine m \<noteq> ''waiting''"
proof
  assume "uci sample_engine m = ''waiting''"
  then have "length (sample_uci m) = 7" by (simp add: sample_engine_def)
  with sample_uci_length [of m] show False by simp
qed

section \<open>The claims\<close>

subsection \<open>C1: a well-formed move that is not legal\<close>

text \<open>
  C1 says that a move text which is a well-formed move, when that move is not among the
  board's legal moves, is answered with \<^verbatim>\<open>{"status": "error", "message": "Illegal move."}\<close>
  and changes nothing. The second half holds, the first does not: \<^verbatim>\<open>make_move\<close> parses
  with \<^verbatim>\<open>board.parse_uci\<close>, which raises \<^verbatim>\<open>ValueError\<close> itself for every move that is not
  legal on the board, the null move apart, so the handler leaves through its \<^verbatim>\<open>except\<close>
  clause and its \<^verbatim>\<open>else\<close> branch is reached by \<^verbatim>\<open>0000\<close> only. At the starting position
  the text \<^verbatim>\<open>e2e5\<close> is a well-formed move, from square 12 to square 36, and it is not legal
  there; \<^verbatim>\<open>make_move\<close> answers it with \<^verbatim>\<open>"Invalid move syntax."\<close>, not with
  \<^verbatim>\<open>"Illegal move."\<close>, and leaves the state as it was.
\<close>

theorem illegal_move_answered_as_syntax:
  "sample_from_uci ''e2e5'' = Some (plain_move 12 36)
   \<and> plain_move 12 36 \<notin> set (board_legal_moves sample_engine (board (init_server sample_engine)))
   \<and> make_move sample_engine (move_request ''e2e5'' (Some ''Alice'')) (init_server sample_engine)
       = (Inr (Json_status_message ''error'' ''Invalid move syntax.''), init_server sample_engine)
   \<and> fst (make_move sample_engine (move_request ''e2e5'' (Some ''Alice''))
            (init_server sample_engine))
       \<noteq> Inr (Json_status_message ''error'' ''Illegal move.'')"
proof -
  have wellformed: "sample_from_uci ''e2e5'' = Some (plain_move 12 36)"
    by code_simp
  have not_legal:
    "plain_move 12 36 \<notin> set (board_legal_moves sample_engine (board (init_server sample_engine)))"
    by code_simp
  have refused: "board_parse_uci sample_engine (board (init_server sample_engine))
      (form_get (form (move_request ''e2e5'' (Some ''Alice''))) ''move'' '''') = None"
    by code_simp
  from make_move_syntax [OF refused] wellformed not_legal show ?thesis
    by simp
qed

subsection \<open>C2: one owner for each move of the stack\<close>

text \<open>
  C2. After every run of calls from the state the module starts in, whatever the calls and
  whatever they answer, \<^verbatim>\<open>move_owners\<close> is as long as \<^verbatim>\<open>board.move_stack\<close>. A move attempt
  keeps the two lengths equal from every state in which they are equal, and when it
  succeeds both have grown by one; after \<^verbatim>\<open>reset\<close> they are equal from every state.
\<close>

theorem owners_match_move_stack:
  "length (move_owners (run eng cs (init_server eng))) =
     length (move_stack (board (run eng cs (init_server eng))))
   \<and> (length (move_owners s) = length (move_stack (board s)) \<longrightarrow>
        length (move_owners (snd (make_move eng rq s))) =
          length (move_stack (board (snd (make_move eng rq s))))
        \<and> (move_ok (fst (make_move eng rq s)) \<longrightarrow>
             length (move_owners (snd (make_move eng rq s))) = Suc (length (move_owners s))))
   \<and> length (move_owners (snd (reset eng rq' s))) =
       length (move_stack (board (snd (reset eng rq' s))))"
  using run_owners_stack [OF init_owners_stack, of eng cs]
    make_move_owners_stack [of eng rq s] make_move_owners_grow [of eng rq s]
  by (simp add: reset_state new_board_def)

text \<open>
  On the sample engine: after the two runs the lengths are 1 and 1, and 3 and 3; the
  first move of a game succeeds and takes both from 0 to 1.
\<close>

theorem owners_match_move_stack_witness:
  "length (move_owners (run sample_engine game_with_reset (init_server sample_engine))) = 1
   \<and> length (move_stack (board (run sample_engine game_with_reset (init_server sample_engine)))) = 1
   \<and> length (move_owners (run sample_engine three_moves (init_server sample_engine))) = 3
   \<and> length (move_stack (board (run sample_engine three_moves (init_server sample_engine)))) = 3
   \<and> length (move_owners (init_server sample_engine)) =
       length (move_stack (board (init_server sample_engine)))
   \<and> move_ok (fst (make_move sample_engine (move_request ''e2e4'' (Some ''Alice''))
                      (init_server sample_engine)))
   \<and> length (move_owners (snd (make_move sample_engine (move_request ''e2e4'' (Some ''Alice''))
                                (init_server sample_engine)))) = 1
   \<and> length (move_stack (board (snd (make_move sample_engine
                                (move_request ''e2e4'' (Some ''Alice''))
                                (init_server sample_engine))))) = 1"
proof -
  let ?s = "init_server sample_engine"
  let ?rq = "move_request ''e2e4'' (Some ''Alice'')"
  have a: "length (move_owners (run sample_engine game_with_reset ?s)) = 1"
    using game_with_reset_shown by (simp add: shown_def)
  have b: "length (move_owners (run sample_engine three_moves ?s)) = 3"
    using three_moves_shown by (simp add: shown_def)
  have start: "length (move_owners ?s) = length (move_stack (board ?s))"
    by (simp add: init_server_def new_board_def)
  have ok: "move_ok (fst (make_move sample_engine ?rq ?s))"
    by code_simp
  have len0: "length (move_owners ?s) = 0"
    by (simp add: init_server_def)
  from owners_match_move_stack [of sample_engine game_with_reset ?s ?rq plain_request]
    owners_match_move_stack [of sample_engine three_moves ?s ?rq plain_request]
    a b start ok len0
  show ?thesis by simp
qed

subsection \<open>C3: Alice plays e2e4, Bob answers e7e5\<close>

text \<open>
  C3. From the starting position, with no move made: when \<^verbatim>\<open>e2e4\<close> sent by Alice succeeds
  (the library parses it to a legal move and writes that move \<^verbatim>\<open>e2e4\<close>), the answer has
  status \<^verbatim>\<open>ok\<close>, orientation \<^verbatim>\<open>black\<close> and the single row
  \<^verbatim>\<open>{1, e2e4, Alice, waiting, waiting}\<close>; when \<^verbatim>\<open>e7e5\<close> sent by Bob then succeeds in the same
  way, its answer has status \<^verbatim>\<open>ok\<close>, orientation \<^verbatim>\<open>white\<close> and the single row
  \<^verbatim>\<open>{1, e2e4, Alice, e7e5, Bob}\<close>.
\<close>

theorem alice_then_bob:
  assumes "board s = new_board eng" and "move_owners s = []"
    and "moves_list (tracker s) = []" and "orientation (manager s) = ''white''"
    and "form_get (form rq1) ''move'' '''' = ''e2e4''" and "username_cookie rq1 = Some ''Alice''"
    and "form_get (form rq2) ''move'' '''' = ''e7e5''" and "username_cookie rq2 = Some ''Bob''"
    and "board_parse_uci eng (new_board eng) ''e2e4'' = Some m1"
    and "m1 \<in> set (board_legal_moves eng (new_board eng))"
    and "uci eng m1 = ''e2e4''"
    and "board_parse_uci eng (board_push eng (new_board eng) m1) ''e7e5'' = Some m2"
    and "m2 \<in> set (board_legal_moves eng (board_push eng (new_board eng) m1))"
    and "uci eng m2 = ''e7e5''"
  shows "fst (make_move eng rq1 s) =
           Inr (Json_move_ok ''ok'' (board_fen eng (board_push eng (new_board eng) m1)) ''black''
                  [\<lparr>move_no = 1, white_move = ''e2e4'', white_user = ''Alice'',
                    black_move = ''waiting'', black_user = ''waiting''\<rparr>])
       \<and> fst (make_move eng rq2 (snd (make_move eng rq1 s))) =
           Inr (Json_move_ok ''ok''
                  (board_fen eng (board_push eng (board_push eng (new_board eng) m1) m2)) ''white''
                  [\<lparr>move_no = 1, white_move = ''e2e4'', white_user = ''Alice'',
                    black_move = ''e7e5'', black_user = ''Bob''\<rparr>])"
proof -
  let ?s1 = "snd (make_move eng rq1 s)"
  have p1: "board_parse_uci eng (board s) (form_get (form rq1) ''move'' '''') = Some m1"
    and l1: "m1 \<in> set (board_legal_moves eng (board s))"
    using assms by simp_all
  have who1: "owner_name rq1 = ''Alice''" and who2: "owner_name rq2 = ''Bob''"
    using assms by (simp_all add: owner_name_def)
  note w = make_move_white [OF p1 l1 \<open>orientation (manager s) = ''white''\<close>]
  have first: "fst (make_move eng rq1 s) =
           Inr (Json_move_ok ''ok'' (board_fen eng (board_push eng (new_board eng) m1)) ''black''
                  [\<lparr>move_no = 1, white_move = ''e2e4'', white_user = ''Alice'',
                    black_move = ''waiting'', black_user = ''waiting''\<rparr>])"
    using w(1) assms who1 by simp
  have b1: "board ?s1 = board_push eng (new_board eng) m1"
    using w(2) assms by simp
  have rows1: "moves_list (tracker ?s1) =
                 [\<lparr>move_no = 1, white_move = ''e2e4'', white_user = ''Alice'',
                   black_move = ''waiting'', black_user = ''waiting''\<rparr>]"
    using w(4) assms who1 by simp
  have o1: "orientation (manager ?s1) \<noteq> ''white''"
    using w(5) by simp
  have p2: "board_parse_uci eng (board ?s1) (form_get (form rq2) ''move'' '''') = Some m2"
    and l2: "m2 \<in> set (board_legal_moves eng (board ?s1))"
    using assms b1 by simp_all
  have ne: "moves_list (tracker ?s1) \<noteq> []"
    using rows1 by simp
  note k = make_move_black [OF p2 l2 o1 ne]
  have second: "fst (make_move eng rq2 ?s1) =
           Inr (Json_move_ok ''ok''
                  (board_fen eng (board_push eng (board_push eng (new_board eng) m1) m2)) ''white''
                  [\<lparr>move_no = 1, white_move = ''e2e4'', white_user = ''Alice'',
                    black_move = ''e7e5'', black_user = ''Bob''\<rparr>])"
    using k(1) rows1 b1 who2 assms by simp
  from first second show ?thesis by simp
qed

text \<open>On the sample engine, where both moves are legal and the answers can be computed.\<close>

theorem alice_then_bob_witness:
  "board_parse_uci sample_engine (new_board sample_engine) ''e2e4'' = Some (plain_move 12 28)
   \<and> plain_move 12 28 \<in> set (board_legal_moves sample_engine (new_board sample_engine))
   \<and> uci sample_engine (plain_move 12 28) = ''e2e4''
   \<and> board_parse_uci sample_engine
        (board_push sample_engine (new_board sample_engine) (plain_move 12 28)) ''e7e5''
       = Some (plain_move 52 36)
   \<and> plain_move 52 36 \<in> set (board_legal_moves sample_engine
        (board_push sample_engine (new_board sample_engine) (plain_move 12 28)))
   \<and> uci sample_engine (plain_move 52 36) = ''e7e5''
   \<and> fst (make_move sample_engine (move_request ''e2e4'' (Some ''Alice''))
            (init_server sample_engine)) =
       Inr (Json_move_ok ''ok'' ''startpos moves e2e4'' ''black''
              [\<lparr>move_no = 1, white_move = ''e2e4'', white_user = ''Alice'',
                black_move = ''waiting'', black_user = ''waiting''\<rparr>])
   \<and> fst (make_move sample_engine (move_request ''e7e5'' (Some ''Bob''))
            (snd (make_move sample_engine (move_request ''e2e4'' (Some ''Alice''))
                    (init_server sample_engine)))) =
       Inr (Json_move_ok ''ok'' ''startpos moves e2e4 e7e5'' ''white''
              [\<lparr>move_no = 1, white_move = ''e2e4'', white_user = ''Alice'',
                black_move = ''e7e5'', black_user = ''Bob''\<rparr>])"
proof -
  let ?s = "init_server sample_engine"
  let ?rq1 = "move_request ''e2e4'' (Some ''Alice'')"
  let ?rq2 = "move_request ''e7e5'' (Some ''Bob'')"
  have s1: "board ?s = new_board sample_engine" by (simp add: init_server_def)
  have s2: "move_owners ?s = []" by (simp add: init_server_def)
  have s3: "moves_list (tracker ?s) = []" by (simp add: init_server_def new_tracker_def)
  have s4: "orientation (manager ?s) = ''white''" by (simp add: init_server_def new_manager_def)
  have r1: "form_get (form ?rq1) ''move'' '''' = ''e2e4''"
    by (simp add: move_request_def form_get_def)
  have r2: "username_cookie ?rq1 = Some ''Alice''" by (simp add: move_request_def)
  have r3: "form_get (form ?rq2) ''move'' '''' = ''e7e5''"
    by (simp add: move_request_def form_get_def)
  have r4: "username_cookie ?rq2 = Some ''Bob''" by (simp add: move_request_def)
  have p1: "board_parse_uci sample_engine (new_board sample_engine) ''e2e4''
              = Some (plain_move 12 28)"
    by code_simp
  have l1: "plain_move 12 28 \<in> set (board_legal_moves sample_engine (new_board sample_engine))"
    by code_simp
  have u1: "uci sample_engine (plain_move 12 28) = ''e2e4''" by code_simp
  have p2: "board_parse_uci sample_engine
              (board_push sample_engine (new_board sample_engine) (plain_move 12 28)) ''e7e5''
              = Some (plain_move 52 36)"
    by code_simp
  have l2: "plain_move 52 36 \<in> set (board_legal_moves sample_engine
              (board_push sample_engine (new_board sample_engine) (plain_move 12 28)))"
    by code_simp
  have u2: "uci sample_engine (plain_move 52 36) = ''e7e5''" by code_simp
  have f1: "board_fen sample_engine
              (board_push sample_engine (new_board sample_engine) (plain_move 12 28))
              = ''startpos moves e2e4''"
    by code_simp
  have f2: "board_fen sample_engine
              (board_push sample_engine
                (board_push sample_engine (new_board sample_engine) (plain_move 12 28))
                (plain_move 52 36))
              = ''startpos moves e2e4 e7e5''"
    by code_simp
  from alice_then_bob [OF s1 s2 s3 s4 r1 r2 r3 r4 p1 l1 u1 p2 l2 u2] p1 l1 u1 p2 l2 u2 f1 f2
  show ?thesis by simp
qed

subsection \<open>C4: the orientation alternates\<close>

text \<open>
  C4. The orientation starts as \<^verbatim>\<open>white\<close>; after every run of calls it is \<^verbatim>\<open>white\<close> or
  \<^verbatim>\<open>black\<close>, and it is \<^verbatim>\<open>white\<close> exactly when the number of successful move attempts
  since the last reset is even. A move attempt flips it when it succeeds and leaves it
  alone when it does not, the two queries leave it alone, and \<^verbatim>\<open>reset\<close> makes it
  \<^verbatim>\<open>white\<close>.
\<close>

theorem orientation_alternates:
  "orientation (manager (init_server eng)) = ''white''
   \<and> get_orientation (manager (run eng cs (init_server eng))) \<in> {''white'', ''black''}
   \<and> (get_orientation (manager (run eng cs (init_server eng))) = ''white''
        \<longleftrightarrow> even (moves_since_reset eng cs (init_server eng) 0))
   \<and> get_orientation (manager (snd (make_move eng rq s))) =
       (if move_ok (fst (make_move eng rq s))
        then (if get_orientation (manager s) = ''white'' then ''black'' else ''white'')
        else get_orientation (manager s))
   \<and> get_orientation (manager (snd (legal_moves eng rq s))) = get_orientation (manager s)
   \<and> get_orientation (manager (snd (game_status eng rq s))) = get_orientation (manager s)
   \<and> get_orientation (manager (snd (reset eng rq s))) = ''white''"
proof -
  have "orientation (manager (init_server eng)) = (if even (0::nat) then ''white'' else ''black'')"
    by (simp add: init_server_def new_manager_def)
  from run_orientation [OF this, of eng cs] show ?thesis
    by (simp add: get_orientation_def make_move_orientation legal_moves_state
        game_status_state reset_state init_server_def new_manager_def)
qed

text \<open>
  On the sample engine: three moves leave the orientation \<^verbatim>\<open>black\<close>; so does the run with
  a reset, whose one move after the reset is followed by two attempts that are turned down.
\<close>

theorem orientation_alternates_witness:
  "get_orientation (manager (run sample_engine three_moves (init_server sample_engine))) = ''black''
   \<and> odd (moves_since_reset sample_engine three_moves (init_server sample_engine) 0)
   \<and> get_orientation (manager (run sample_engine game_with_reset (init_server sample_engine)))
       = ''black''
   \<and> moves_since_reset sample_engine game_with_reset (init_server sample_engine) 0 = 1
   \<and> move_ok (fst (make_move sample_engine (move_request ''e2e4'' (Some ''Alice''))
                      (init_server sample_engine)))
   \<and> get_orientation (manager (snd (make_move sample_engine
         (move_request ''e2e4'' (Some ''Alice'')) (init_server sample_engine)))) = ''black''
   \<and> \<not> move_ok (fst (make_move sample_engine (move_request ''e2e5'' (Some ''Alice''))
                        (init_server sample_engine)))
   \<and> get_orientation (manager (snd (make_move sample_engine
         (move_request ''e2e5'' (Some ''Alice'')) (init_server sample_engine)))) = ''white''"
proof -
  let ?s = "init_server sample_engine"
  have a: "get_orientation (manager (run sample_engine three_moves ?s)) = ''black''"
    using three_moves_shown by (simp add: shown_def)
  have b: "get_orientation (manager (run sample_engine game_with_reset ?s)) = ''black''"
    using game_with_reset_shown by (simp add: shown_def)
  have ok: "move_ok (fst (make_move sample_engine (move_request ''e2e4'' (Some ''Alice'')) ?s))"
    by code_simp
  have refused: "\<not> move_ok (fst (make_move sample_engine (move_request ''e2e5'' (Some ''Alice'')) ?s))"
    by code_simp
  have white: "get_orientation (manager ?s) = ''white''"
    by (simp add: init_server_def new_manager_def get_orientation_def)
  from orientation_alternates [of sample_engine three_moves "move_request ''e2e4'' (Some ''Alice'')" ?s]
    orientation_alternates [of sample_engine game_with_reset "move_request ''e2e5'' (Some ''Alice'')" ?s]
    a b ok refused white game_with_reset_count
  show ?thesis by simp
qed

subsection \<open>C5: reset\<close>

text \<open>
  C5. From every state (so from every reachable one) \<^verbatim>\<open>reset\<close> returns its redirect and
  leaves the board a new board in the starting position with an empty move stack, the list
  of move owners empty, the list of move rows empty and the orientation \<^verbatim>\<open>white\<close>.
\<close>

theorem reset_restores_start:
  "fst (reset eng rq s) = Inr (Redirect ''index'')
   \<and> board (snd (reset eng rq s)) = new_board eng
   \<and> position (board (snd (reset eng rq s))) = starting_position eng
   \<and> move_stack (board (snd (reset eng rq s))) = []
   \<and> move_owners (snd (reset eng rq s)) = []
   \<and> get_moves_list (tracker (snd (reset eng rq s))) = []
   \<and> get_orientation (manager (snd (reset eng rq s))) = ''white''"
  by (simp add: reset_def Let_def board_reset_def new_board_def tracker_reset_def
      reset_orientation_def get_moves_list_def get_orientation_def)

subsection \<open>C6: the legal destinations of a square\<close>

text \<open>
  C6. Whatever the posted square text, \<^verbatim>\<open>legal_moves\<close> answers with a list of squares,
  never with an exception, and changes nothing. The list is empty when the text is not a
  square; for a square it holds the names of the destinations of exactly the legal moves
  that start there, in the order of the legal moves, so it is empty when no legal move
  starts there, and in particular for a square that holds no piece, every legal move
  starting from a square that holds one.
\<close>

theorem legal_moves_never_fails:
  "snd (legal_moves eng rq s) = s
   \<and> fst (legal_moves eng rq s) =
       Inr (Json_moves
         (case chess_parse_square eng (form_get (form rq) ''square'' '''') of
            None \<Rightarrow> []
          | Some sq \<Rightarrow>
              map (\<lambda>m. chess_square_name eng (to_square m))
                (filter (\<lambda>m. from_square m = sq) (board_legal_moves eng (board s)))))
   \<and> (chess_parse_square eng (form_get (form rq) ''square'' '''') = None \<longrightarrow>
        fst (legal_moves eng rq s) = Inr (Json_moves []))
   \<and> (\<forall>sq. chess_parse_square eng (form_get (form rq) ''square'' '''') = Some sq \<longrightarrow>
        (\<exists>sqs. fst (legal_moves eng rq s) = Inr (Json_moves sqs)
           \<and> set sqs = {chess_square_name eng (to_square m) | m.
                          m \<in> set (board_legal_moves eng (board s)) \<and> from_square m = sq})
        \<and> ((\<forall>m \<in> set (board_legal_moves eng (board s)). from_square m \<noteq> sq) \<longrightarrow>
             fst (legal_moves eng rq s) = Inr (Json_moves []))
        \<and> ((\<forall>m \<in> set (board_legal_moves eng (board s)). holds_piece (from_square m))
             \<and> \<not> holds_piece sq \<longrightarrow>
             fst (legal_moves eng rq s) = Inr (Json_moves [])))"
proof -
  have no_move: "filter (\<lambda>m. from_square m = sq) (board_legal_moves eng (board s)) = []"
    if "\<forall>m \<in> set (board_legal_moves eng (board s)). from_square m \<noteq> sq" for sq
    using that by (simp add: filter_empty_conv)
  have empty_square: "\<forall>m \<in> set (board_legal_moves eng (board s)). from_square m \<noteq> sq"
    if "\<forall>m \<in> set (board_legal_moves eng (board s)). holds_piece (from_square m)"
      and "\<not> holds_piece sq" for sq
    using that by auto
  show ?thesis
    using no_move empty_square
    by (auto simp add: legal_moves_def Let_def split: option.splits)
qed

text \<open>
  On the sample engine, at the starting position: the pawn on \<^verbatim>\<open>e2\<close> can go to \<^verbatim>\<open>e3\<close> and
  \<^verbatim>\<open>e4\<close>, \<^verbatim>\<open>e9\<close> is no square, and \<^verbatim>\<open>e5\<close> is an empty one.
\<close>

theorem legal_moves_never_fails_witness:
  "chess_parse_square sample_engine (form_get (form (square_request ''e2'')) ''square'' '''')
     = Some 12
   \<and> fst (legal_moves sample_engine (square_request ''e2'') (init_server sample_engine))
       = Inr (Json_moves [''e3'', ''e4''])
   \<and> chess_parse_square sample_engine (form_get (form (square_request ''e9'')) ''square'' '''')
       = None
   \<and> fst (legal_moves sample_engine (square_request ''e9'') (init_server sample_engine))
       = Inr (Json_moves [])
   \<and> chess_parse_square sample_engine (form_get (form (square_request ''e5'')) ''square'' '''')
       = Some 36
   \<and> \<not> sample_piece_at (board (init_server sample_engine)) 36
   \<and> list_all (\<lambda>m. sample_piece_at (board (init_server sample_engine)) (from_square m))
        (board_legal_moves sample_engine (board (init_server sample_engine)))
   \<and> fst (legal_moves sample_engine (square_request ''e5'') (init_server sample_engine))
       = Inr (Json_moves [])"
proof -
  let ?s = "init_server sample_engine"
  have e2: "chess_parse_square sample_engine (form_get (form (square_request ''e2'')) ''square'' '''')
              = Some 12"
    by code_simp
  have e2_moves: "map (\<lambda>m. chess_square_name sample_engine (to_square m))
                    (filter (\<lambda>m. from_square m = 12) (board_legal_moves sample_engine (board ?s)))
                  = [''e3'', ''e4'']"
    by code_simp
  have e9: "chess_parse_square sample_engine (form_get (form (square_request ''e9'')) ''square'' '''')
              = None"
    by code_simp
  have e5: "chess_parse_square sample_engine (form_get (form (square_request ''e5'')) ''square'' '''')
              = Some 36"
    by code_simp
  have free: "\<not> sample_piece_at (board (init_server sample_engine)) 36" by code_simp
  have occ: "list_all (\<lambda>m. sample_piece_at (board (init_server sample_engine)) (from_square m))
               (board_legal_moves sample_engine (board ?s))"
    by code_simp
  then have occ': "\<forall>m \<in> set (board_legal_moves sample_engine (board ?s)).
                     sample_piece_at (board (init_server sample_engine)) (from_square m)"
    by (simp add: list_all_iff)
  have a: "fst (legal_moves sample_engine (square_request ''e2'') ?s) = Inr (Json_moves [''e3'', ''e4''])"
    using legal_moves_never_fails [of sample_engine "square_request ''e2''" ?s "sample_piece_at (board ?s)"]
      e2 e2_moves by simp
  have b: "fst (legal_moves sample_engine (square_request ''e9'') ?s) = Inr (Json_moves [])"
    using legal_moves_never_fails [of sample_engine "square_request ''e9''" ?s "sample_piece_at (board ?s)"]
      e9 by simp
  have c: "fst (legal_moves sample_engine (square_request ''e5'') ?s) = Inr (Json_moves [])"
    using legal_moves_never_fails [of sample_engine "square_request ''e5''" ?s "sample_piece_at (board ?s)"]
      e5 free occ' by blast
  from e2 a e9 b e5 free occ c show ?thesis by simp
qed

subsection \<open>C7: the status text\<close>

text \<open>
  C7. For every board \<^verbatim>\<open>status_text\<close> returns, when the game is over,
  \<^verbatim>\<open>Checkmate! White wins!\<close> for the result \<^verbatim>\<open>1-0\<close>, \<^verbatim>\<open>Checkmate! Black wins!\<close> for \<^verbatim>\<open>0-1\<close>,
  \<^verbatim>\<open>Game over. Draw!\<close> for \<^verbatim>\<open>1/2-1/2\<close> and \<^verbatim>\<open>Game over.\<close> for any other result; and
  otherwise the side to move followed by \<^verbatim>\<open>to move, and they're in check!\<close> when that side
  is in check and by \<^verbatim>\<open>to move.\<close> when it is not. So a game White has won by checkmate
  gives \<^verbatim>\<open>Checkmate! White wins!\<close>, and a game that goes on with White to move and not in
  check gives \<^verbatim>\<open>White to move.\<close>
\<close>

theorem status_text_cases:
  "status_text eng b =
     (if board_is_game_over eng b then
        (if board_result eng b = ''1-0'' then ''Checkmate! White wins!''
         else if board_result eng b = ''0-1'' then ''Checkmate! Black wins!''
         else if board_result eng b = ''1/2-1/2'' then ''Game over. Draw!''
         else ''Game over.'')
      else if board_is_check eng b then
        (if board_turn eng b then ''White to move, and they're in check!''
         else ''Black to move, and they're in check!'')
      else
        (if board_turn eng b then ''White to move.'' else ''Black to move.''))"
  by (simp add: status_text_def Let_def)

subsection \<open>C9: at most one open row, and it is the last\<close>

text \<open>
  C9. The library writes no move as the word \<^verbatim>\<open>waiting\<close>. After every run of calls from
  the state the module starts in (move attempts by White and by Black, successful or not,
  queries and resets) at most one row of the tracker is open, and an open row is the last
  row of the list.
\<close>

theorem one_open_row_last:
  assumes "\<And>m. uci eng m \<noteq> ''waiting''"
  shows "length (filter open_row (get_moves_list (tracker (run eng cs (init_server eng))))) \<le> 1
    \<and> (\<forall>i < length (get_moves_list (tracker (run eng cs (init_server eng)))).
          open_row (get_moves_list (tracker (run eng cs (init_server eng))) ! i) \<longrightarrow>
          Suc i = length (get_moves_list (tracker (run eng cs (init_server eng)))))"
proof -
  have "list_all (\<lambda>r. \<not> open_row r)
          (butlast (moves_list (tracker (run eng cs (init_server eng)))))"
    by (rule run_rows [OF assms]) (simp_all add: init_server_def new_manager_def new_tracker_def)
  then show ?thesis
    using closed_rows_filter closed_rows_butlast by (simp add: get_moves_list_def)
qed

text \<open>
  On the sample engine, after the three moves: the first row is complete, although its
  Black user is called \<^verbatim>\<open>waiting\<close>, and the second and last row is the one open row.
\<close>

theorem one_open_row_last_witness:
  "(\<forall>m. uci sample_engine m \<noteq> ''waiting'')
   \<and> get_moves_list (tracker (run sample_engine three_moves (init_server sample_engine))) =
       [\<lparr>move_no = 1, white_move = ''e2e4'', white_user = ''Alice'',
          black_move = ''e7e5'', black_user = ''waiting''\<rparr>,
        \<lparr>move_no = 2, white_move = ''g1f3'', white_user = ''Carol'',
          black_move = ''waiting'', black_user = ''waiting''\<rparr>]
   \<and> length (filter open_row
        (get_moves_list (tracker (run sample_engine three_moves (init_server sample_engine))))) = 1
   \<and> \<not> open_row (get_moves_list (tracker (run sample_engine three_moves
                                              (init_server sample_engine))) ! 0)
   \<and> open_row (get_moves_list (tracker (run sample_engine three_moves
                                            (init_server sample_engine))) ! 1)"
proof -
  let ?rows = "get_moves_list (tracker (run sample_engine three_moves (init_server sample_engine)))"
  have rows: "?rows =
       [\<lparr>move_no = 1, white_move = ''e2e4'', white_user = ''Alice'',
          black_move = ''e7e5'', black_user = ''waiting''\<rparr>,
        \<lparr>move_no = 2, white_move = ''g1f3'', white_user = ''Carol'',
          black_move = ''waiting'', black_user = ''waiting''\<rparr>]"
    using three_moves_shown by (simp add: shown_def)
  have last_open: "open_row (?rows ! 1)"
    by (simp add: rows open_row_def)
  from one_open_row_last [of sample_engine three_moves, OF sample_uci_not_waiting]
  have few: "length (filter open_row ?rows) \<le> 1"
    and at_end: "\<forall>i < length ?rows. open_row (?rows ! i) \<longrightarrow> Suc i = length ?rows"
    by blast+
  have "0 < length ?rows" and "Suc 0 \<noteq> length ?rows"
    by (simp_all add: rows)
  with at_end have first_closed: "\<not> open_row (?rows ! 0)"
    by blast
  have "length (filter open_row ?rows) \<ge> 1"
    by (simp add: rows open_row_def)
  with few have one: "length (filter open_row ?rows) = 1"
    by simp
  from rows one first_closed last_open sample_uci_not_waiting show ?thesis
    by blast
qed

subsection \<open>C10: a move by Black finds its row\<close>

text \<open>
  C10. After every run of calls from the state the module starts in, when the orientation
  is not \<^verbatim>\<open>white\<close> (so that a move made now is recorded as Black's) the tracker's list of
  rows is not empty and its last row is open; and no move attempt made in that state,
  whatever its request, ends with an exception: \<^verbatim>\<open>moves_list[-1]\<close> is never read from an
  empty list.
\<close>

theorem black_move_finds_open_row:
  "(get_orientation (manager (run eng cs (init_server eng))) \<noteq> ''white'' \<longrightarrow>
      get_moves_list (tracker (run eng cs (init_server eng))) \<noteq> []
      \<and> open_row (last (get_moves_list (tracker (run eng cs (init_server eng))))))
   \<and> (\<forall>rq e. fst (make_move eng rq (run eng cs (init_server eng))) \<noteq> Inl e)"
proof -
  have start: "orientation (manager (init_server eng)) \<noteq> ''white'' \<longrightarrow>
      moves_list (tracker (init_server eng)) \<noteq> []
      \<and> open_row (last (moves_list (tracker (init_server eng))))"
    by (simp add: init_server_def new_manager_def)
  note inv = run_pending [OF start, of eng cs]
  then have "orientation (manager (run eng cs (init_server eng))) \<noteq> ''white'' \<longrightarrow>
               moves_list (tracker (run eng cs (init_server eng))) \<noteq> []"
    by simp
  from make_move_no_exception [OF this] inv show ?thesis
    by (simp add: get_orientation_def get_moves_list_def)
qed

text \<open>
  On the sample engine, after the three moves: it is Black's turn, the last row is open,
  and Black's next move raises nothing.
\<close>

theorem black_move_finds_open_row_witness:
  "get_orientation (manager (run sample_engine three_moves (init_server sample_engine))) = ''black''
   \<and> get_moves_list (tracker (run sample_engine three_moves (init_server sample_engine))) \<noteq> []
   \<and> open_row (last (get_moves_list (tracker (run sample_engine three_moves
                                                 (init_server sample_engine)))))
   \<and> fst (make_move sample_engine (move_request ''b8c6'' (Some ''Dan''))
            (run sample_engine three_moves (init_server sample_engine))) \<noteq> Inl IndexError"
proof -
  let ?s = "run sample_engine three_moves (init_server sample_engine)"
  have black: "get_orientation (manager ?s) = ''black''"
    using three_moves_shown by (simp add: shown_def)
  then have "get_orientation (manager ?s) \<noteq> ''white''" by simp
  with black_move_finds_open_row [of sample_engine three_moves] black
  show ?thesis by simp
qed

end
